theory Spec2Isabelle
  imports Complex_Main "HOL-Library.Word" "HOL-Library.Signed_Division"
begin

section \<open>Detached point arithmetic: the scaled-value core\<close>

text \<open>
  The C structure \<^verbatim>\<open>dpa_t\<close> has an \<^verbatim>\<open>int32_t\<close> mantissa and an \<^verbatim>\<open>int8_t\<close> point.
  Both are modelled as machine words that are read as two's complement numbers by \<open>sint\<close>.
  Arithmetic on \<^verbatim>\<open>int32_t\<close> wraps around (the specification says so for overflow of the
  mantissa); expressions on the point are evaluated in \<^verbatim>\<open>int\<close> after integer promotion and
  narrowed to eight bits when they are stored.
\<close>

record dpa_t =
  mantissa :: "32 word"
  point :: "8 word"

text \<open>
  The loop \<^verbatim>\<open>int32_t scale = 1; for (int i = 0; i < n; i++) scale *= 10;\<close>
  that occurs in \<^verbatim>\<open>dpa_add\<close>, \<^verbatim>\<open>dpa_from_int\<close> and \<^verbatim>\<open>dpa_to_int\<close>. A bound
  \<open>n \<le> 0\<close> gives no iteration, which is what \<open>nat\<close> does at every call below.
\<close>

primrec scale_loop :: "nat \<Rightarrow> 32 word" where
  "scale_loop 0 = 1"
| "scale_loop (Suc i) = scale_loop i * 10"

definition dpa_add :: "dpa_t \<Rightarrow> dpa_t \<Rightarrow> dpa_t" where
  "dpa_add a b =
    (if point a = point b then \<lparr>mantissa = mantissa a + mantissa b, point = point a\<rparr>
     else if sint (point a) > sint (point b) then
       (let shift = sint (point a) - sint (point b) in
        if shift > 10 then a
        else \<lparr>mantissa = mantissa a + mantissa b * scale_loop (nat shift), point = point a\<rparr>)
     else
       (let shift = sint (point b) - sint (point a) in
        if shift > 10 then b
        else \<lparr>mantissa = mantissa a * scale_loop (nat shift) + mantissa b, point = point b\<rparr>))"

definition INT32_MAX :: int where
  "INT32_MAX = 2147483647"

definition INT32_MIN :: int where
  "INT32_MIN = - 2147483648"

text \<open>
  \<^verbatim>\<open>dpa_multiply\<close>: the product is formed in an \<^verbatim>\<open>int64_t\<close>, divided by 1000 with C's
  truncating division (\<open>sdiv\<close> on \<open>int\<close>) when it leaves the 32-bit range, and cast
  back to \<^verbatim>\<open>int32_t\<close>, which keeps the low 32 bits. The sum of the points is an
  \<^verbatim>\<open>int\<close> that is narrowed to \<^verbatim>\<open>int8_t\<close> by the initialiser.
\<close>

definition dpa_multiply :: "dpa_t \<Rightarrow> dpa_t \<Rightarrow> dpa_t" where
  "dpa_multiply a b =
    (let result = (scast (mantissa a) :: 64 word) * scast (mantissa b) in
     if sint result > INT32_MAX \<or> sint result < INT32_MIN then
       (let result' = (word_of_int (sint result sdiv 1000) :: 64 word) in
        \<lparr>mantissa = ucast result', point = word_of_int (sint (point a) + sint (point b) + 3)\<rparr>)
     else \<lparr>mantissa = ucast result, point = word_of_int (sint (point a) + sint (point b))\<rparr>)"

definition dpa_from_int :: "32 word \<Rightarrow> int \<Rightarrow> dpa_t" where
  "dpa_from_int v decimal_places =
     \<lparr>mantissa = v * scale_loop (nat decimal_places), point = word_of_int (- decimal_places)\<rparr>"

text \<open>
  Division of two \<^verbatim>\<open>int32_t\<close> values. A zero divisor has no result in C, so it is the
  value \<open>None\<close> here; otherwise the quotient is truncated towards zero.
\<close>

definition c_div32 :: "32 word \<Rightarrow> 32 word \<Rightarrow> 32 word option" where
  "c_div32 x y = (if y = 0 then None else Some (word_of_int (sint x sdiv sint y)))"

definition dpa_to_int :: "dpa_t \<Rightarrow> 32 word option" where
  "dpa_to_int num =
    (if sint (point num) \<ge> 0 then Some (mantissa num * scale_loop (nat (sint (point num))))
     else c_div32 (mantissa num) (scale_loop (nat (- sint (point num)))))"

text \<open>
  The quantity a scaled value stands for, \<open>mantissa \<times> 10\<^sup>p\<^sup>o\<^sup>i\<^sup>n\<^sup>t\<close>, as a rational number.
  This is the reading that \<^verbatim>\<open>dpa_from_int\<close>, \<^verbatim>\<open>dpa_to_int\<close> and the rescaling in
  \<^verbatim>\<open>dpa_multiply\<close> use, and the one the data model of the specification gives.
\<close>

definition dpa_value :: "dpa_t \<Rightarrow> rat" where
  "dpa_value v = of_int (sint (mantissa v)) * 10 powi sint (point v)"

section \<open>Configuration and program state\<close>

definition BUFFER_SIZE :: nat where
  "BUFFER_SIZE = 256"

definition FIR_TAPS :: nat where
  "FIR_TAPS = 32"

definition FFT_SIZE :: nat where
  "FFT_SIZE = 64"

definition NUM_SENSORS :: nat where
  "NUM_SENSORS = 4"

definition ADC_CHANNELS :: nat where
  "ADC_CHANNELS = 3"

definition fir_coeffs :: "dpa_t list" where
  "fir_coeffs =
    [\<lparr>mantissa = - 41, point = - 6\<rparr>, \<lparr>mantissa = - 134, point = - 6\<rparr>,
     \<lparr>mantissa = - 207, point = - 6\<rparr>, \<lparr>mantissa = - 180, point = - 6\<rparr>,
     \<lparr>mantissa = - 12, point = - 6\<rparr>, \<lparr>mantissa = 244, point = - 6\<rparr>,
     \<lparr>mantissa = 494, point = - 6\<rparr>, \<lparr>mantissa = 583, point = - 6\<rparr>,
     \<lparr>mantissa = 394, point = - 6\<rparr>, \<lparr>mantissa = - 67, point = - 6\<rparr>,
     \<lparr>mantissa = - 693, point = - 6\<rparr>, \<lparr>mantissa = - 1266, point = - 6\<rparr>,
     \<lparr>mantissa = - 1528, point = - 6\<rparr>, \<lparr>mantissa = - 1246, point = - 6\<rparr>,
     \<lparr>mantissa = - 434, point = - 6\<rparr>, \<lparr>mantissa = 1116, point = - 6\<rparr>,
     \<lparr>mantissa = 3395, point = - 6\<rparr>, \<lparr>mantissa = 6251, point = - 6\<rparr>,
     \<lparr>mantissa = 9367, point = - 6\<rparr>, \<lparr>mantissa = 12358, point = - 6\<rparr>,
     \<lparr>mantissa = 14808, point = - 6\<rparr>, \<lparr>mantissa = 16371, point = - 6\<rparr>,
     \<lparr>mantissa = 16763, point = - 6\<rparr>, \<lparr>mantissa = 15808, point = - 6\<rparr>,
     \<lparr>mantissa = 13459, point = - 6\<rparr>, \<lparr>mantissa = 9806, point = - 6\<rparr>,
     \<lparr>mantissa = 5081, point = - 6\<rparr>, \<lparr>mantissa = - 331, point = - 6\<rparr>,
     \<lparr>mantissa = - 5806, point = - 6\<rparr>, \<lparr>mantissa = - 10646, point = - 6\<rparr>,
     \<lparr>mantissa = - 14308, point = - 6\<rparr>, \<lparr>mantissa = - 16540, point = - 6\<rparr>]"

text \<open>
  The global buffers of the program and the shared FIR cursor. The two-dimensional C
  arrays are lists of rows. \<^verbatim>\<open>fft_real\<close> and \<^verbatim>\<open>fft_imag\<close> are the static arrays of
  \<^verbatim>\<open>process_audio_block\<close>, which keep their contents between calls. The coefficient
  table is \<^verbatim>\<open>static const\<close> and therefore a constant, not a field.
\<close>

record dsp_state =
  adc_buffer :: "16 word list list"
  signal_buffer :: "dpa_t list list"
  output_buffer :: "dpa_t list"
  fir_delay :: "dpa_t list list"
  fir_index :: int
  fft_real :: "dpa_t list"
  fft_imag :: "dpa_t list"

text \<open>
  The state at program start: static storage is zero-initialised, and \<^verbatim>\<open>main\<close> clears
  the delay lines once more before the first block.
\<close>

definition initial_state :: dsp_state where
  "initial_state =
    \<lparr>adc_buffer = replicate 3 (replicate 256 0),
     signal_buffer = replicate 3 (replicate 256 \<lparr>mantissa = 0, point = 0\<rparr>),
     output_buffer = replicate 256 \<lparr>mantissa = 0, point = 0\<rparr>,
     fir_delay = replicate 3 (replicate 32 \<lparr>mantissa = 0, point = 0\<rparr>),
     fir_index = 0,
     fft_real = replicate 64 \<lparr>mantissa = 0, point = 0\<rparr>,
     fft_imag = replicate 64 \<lparr>mantissa = 0, point = 0\<rparr>\<rparr>"

section \<open>FIR filter\<close>

text \<open>
  One iteration of the tap loop of \<^verbatim>\<open>fir_filter\<close>. The index expression is evaluated
  in \<^verbatim>\<open>int\<close>; \<open>smod\<close> is the remainder of C's truncating division.
\<close>

definition fir_tap :: "nat \<Rightarrow> dsp_state \<Rightarrow> nat \<Rightarrow> dpa_t \<Rightarrow> dpa_t" where
  "fir_tap channel s i output =
    (let delay_idx = (fir_index s - int i + int FIR_TAPS) smod int FIR_TAPS;
         product = dpa_multiply (fir_coeffs ! i) (fir_delay s ! channel ! nat delay_idx)
     in dpa_add output product)"

text \<open>
  \<^verbatim>\<open>fir_filter\<close> stores the input at the cursor and returns the accumulated sum together
  with the state it leaves behind.
\<close>

definition fir_filter :: "nat \<Rightarrow> dpa_t \<Rightarrow> dsp_state \<Rightarrow> dpa_t \<times> dsp_state" where
  "fir_filter channel input s =
    (let s1 = s\<lparr>fir_delay :=
                 (fir_delay s)[channel := (fir_delay s ! channel)[nat (fir_index s) := input]]\<rparr>;
         output = fold (fir_tap channel s1) [0..<FIR_TAPS] \<lparr>mantissa = 0, point = 0\<rparr>
     in (output, s1))"

section \<open>Discrete transform\<close>

definition cos_table :: "dpa_t list" where
  "cos_table =
    [\<lparr>mantissa = 10000, point = - 4\<rparr>, \<lparr>mantissa = 9808, point = - 4\<rparr>,
     \<lparr>mantissa = 9239, point = - 4\<rparr>, \<lparr>mantissa = 8315, point = - 4\<rparr>,
     \<lparr>mantissa = 7071, point = - 4\<rparr>, \<lparr>mantissa = 5556, point = - 4\<rparr>,
     \<lparr>mantissa = 3827, point = - 4\<rparr>, \<lparr>mantissa = 1951, point = - 4\<rparr>,
     \<lparr>mantissa = 0, point = - 4\<rparr>, \<lparr>mantissa = - 1951, point = - 4\<rparr>,
     \<lparr>mantissa = - 3827, point = - 4\<rparr>, \<lparr>mantissa = - 5556, point = - 4\<rparr>,
     \<lparr>mantissa = - 7071, point = - 4\<rparr>, \<lparr>mantissa = - 8315, point = - 4\<rparr>,
     \<lparr>mantissa = - 9239, point = - 4\<rparr>, \<lparr>mantissa = - 9808, point = - 4\<rparr>]"

definition sin_table :: "dpa_t list" where
  "sin_table =
    [\<lparr>mantissa = 0, point = - 4\<rparr>, \<lparr>mantissa = 1951, point = - 4\<rparr>,
     \<lparr>mantissa = 3827, point = - 4\<rparr>, \<lparr>mantissa = 5556, point = - 4\<rparr>,
     \<lparr>mantissa = 7071, point = - 4\<rparr>, \<lparr>mantissa = 8315, point = - 4\<rparr>,
     \<lparr>mantissa = 9239, point = - 4\<rparr>, \<lparr>mantissa = 9808, point = - 4\<rparr>,
     \<lparr>mantissa = 10000, point = - 4\<rparr>, \<lparr>mantissa = 9808, point = - 4\<rparr>,
     \<lparr>mantissa = 9239, point = - 4\<rparr>, \<lparr>mantissa = 8315, point = - 4\<rparr>,
     \<lparr>mantissa = 7071, point = - 4\<rparr>, \<lparr>mantissa = 5556, point = - 4\<rparr>,
     \<lparr>mantissa = 3827, point = - 4\<rparr>, \<lparr>mantissa = 1951, point = - 4\<rparr>]"

text \<open>
  The body of the inner loop of \<^verbatim>\<open>dpa_dft\<close>, acting on the pair of output arrays.
\<close>

definition dft_term ::
  "dpa_t list \<Rightarrow> nat \<Rightarrow> nat \<Rightarrow> nat \<Rightarrow> dpa_t list \<times> dpa_t list \<Rightarrow> dpa_t list \<times> dpa_t list" where
  "dft_term input N k n out =
    (let angle_idx = nat (((int k * int n * 16) sdiv int N) smod 16);
         cos_term = dpa_multiply (input ! n) (cos_table ! angle_idx);
         sin_term = dpa_multiply (input ! n) (sin_table ! angle_idx)
     in ((fst out)[k := dpa_add (fst out ! k) cos_term],
         (snd out)[k := dpa_add (snd out ! k) sin_term]))"

definition dft_bin ::
  "dpa_t list \<Rightarrow> nat \<Rightarrow> nat \<Rightarrow> dpa_t list \<times> dpa_t list \<Rightarrow> dpa_t list \<times> dpa_t list" where
  "dft_bin input N k out =
    fold (dft_term input N k) [0..<N]
      ((fst out)[k := \<lparr>mantissa = 0, point = 0\<rparr>], (snd out)[k := \<lparr>mantissa = 0, point = 0\<rparr>])"

definition dpa_dft ::
  "dpa_t list \<Rightarrow> dpa_t list \<Rightarrow> dpa_t list \<Rightarrow> nat \<Rightarrow> dpa_t list \<times> dpa_t list" where
  "dpa_dft input real_out imag_out N = fold (dft_bin input N) [0..<N div 2] (real_out, imag_out)"

section \<open>Beamformer\<close>

definition delays :: "int list" where
  "delays = [0, 2, 4, 6]"

text \<open>The body of the channel loop of \<^verbatim>\<open>delay_and_sum_beamforming\<close>.\<close>

definition beam_channel :: "dpa_t list list \<Rightarrow> nat \<Rightarrow> nat \<Rightarrow> dpa_t list \<Rightarrow> dpa_t list" where
  "beam_channel input_channels i ch output =
    (let delayed_idx = int i - delays ! ch in
     if delayed_idx \<ge> 0
     then output[i := dpa_add (output ! i) (input_channels ! ch ! nat delayed_idx)]
     else output)"

text \<open>
  The body of the sample loop. The channel loop runs while
  \<^verbatim>\<open>ch < NUM_SENSORS && ch < ADC_CHANNELS\<close>, that is over the first
  \<open>min NUM_SENSORS ADC_CHANNELS\<close> channels. The final statement divides the mantissa
  by \<^verbatim>\<open>NUM_SENSORS\<close>, a non-zero constant, truncating towards zero.
\<close>

definition beam_sample :: "dpa_t list list \<Rightarrow> nat \<Rightarrow> dpa_t list \<Rightarrow> dpa_t list" where
  "beam_sample input_channels i output =
    (let o1 = output[i := \<lparr>mantissa = 0, point = 0\<rparr>];
         o2 = fold (beam_channel input_channels i) [0..<min NUM_SENSORS ADC_CHANNELS] o1
     in o2[i := (o2 ! i)\<lparr>mantissa := word_of_int (sint (mantissa (o2 ! i)) sdiv int NUM_SENSORS)\<rparr>])"

definition delay_and_sum_beamforming :: "dpa_t list list \<Rightarrow> dpa_t list \<Rightarrow> nat \<Rightarrow> dpa_t list" where
  "delay_and_sum_beamforming input_channels output samples =
     fold (beam_sample input_channels) [0..<samples] output"

section \<open>Processing pipeline\<close>

text \<open>The body of the conversion loop: centre the raw sample and convert it.\<close>

definition convert_sample :: "nat \<Rightarrow> nat \<Rightarrow> dsp_state \<Rightarrow> dsp_state" where
  "convert_sample ch i s =
    (let sample = (ucast (adc_buffer s ! ch ! i) :: 32 word) - 2048
     in s\<lparr>signal_buffer :=
            (signal_buffer s)[ch := (signal_buffer s ! ch)[i := dpa_from_int sample 4]]\<rparr>)"

definition convert_stage :: "dsp_state \<Rightarrow> dsp_state" where
  "convert_stage s = fold (\<lambda>ch. fold (convert_sample ch) [0..<BUFFER_SIZE]) [0..<ADC_CHANNELS] s"

text \<open>
  The body of the filtering loop: filter the sample in place, then advance the cursor.
\<close>

definition fir_sample :: "nat \<Rightarrow> nat \<Rightarrow> dsp_state \<Rightarrow> dsp_state" where
  "fir_sample ch i s =
    (let r = fir_filter ch (signal_buffer s ! ch ! i) s;
         s1 = snd r;
         s2 = s1\<lparr>signal_buffer := (signal_buffer s1)[ch := (signal_buffer s1 ! ch)[i := fst r]]\<rparr>
     in s2\<lparr>fir_index := (fir_index s2 + 1) smod int FIR_TAPS\<rparr>)"

definition fir_stage :: "dsp_state \<Rightarrow> dsp_state" where
  "fir_stage s = fold (\<lambda>ch. fold (fir_sample ch) [0..<BUFFER_SIZE]) [0..<ADC_CHANNELS] s"

text \<open>
  \<^verbatim>\<open>process_audio_block\<close> returns the state it leaves and the eight values it prints,
  each the result of \<^verbatim>\<open>dpa_to_int\<close> on a real bin.
\<close>

definition process_audio_block :: "dsp_state \<Rightarrow> dsp_state \<times> 32 word option list" where
  "process_audio_block s =
    (let s1 = convert_stage s;
         s2 = fir_stage s1;
         s3 = s2\<lparr>output_buffer :=
                  delay_and_sum_beamforming (signal_buffer s2) (output_buffer s2) BUFFER_SIZE\<rparr>
     in if BUFFER_SIZE \<ge> FFT_SIZE
        then (let out = dpa_dft (output_buffer s3) (fft_real s3) (fft_imag s3) FFT_SIZE;
                  s4 = s3\<lparr>fft_real := fst out, fft_imag := snd out\<rparr>
              in (s4, map (\<lambda>i. dpa_to_int (fft_real s4 ! i)) [0..<8]))
        else (s3, []))"

subsection \<open>The filtering loop with a log of what it does to the cursor\<close>

text \<open>
  To speak about when the cursor is advanced, the filtering loop is run with a log: each
  iteration records the channel, the sample index and the cursor value that
  \<^verbatim>\<open>fir_filter\<close> is called with, and then the advance of the cursor that follows the
  call. The state is computed by \<open>fir_sample\<close> itself.
\<close>

datatype event = Filtered nat nat int | Advanced

definition fir_sample_logged :: "nat \<Rightarrow> nat \<Rightarrow> dsp_state \<times> event list \<Rightarrow> dsp_state \<times> event list" where
  "fir_sample_logged ch i sl =
     (fir_sample ch i (fst sl), snd sl @ [Filtered ch i (fir_index (fst sl)), Advanced])"

definition fir_stage_logged :: "dsp_state \<Rightarrow> dsp_state \<times> event list" where
  "fir_stage_logged s =
     fold (\<lambda>ch. fold (fir_sample_logged ch) [0..<BUFFER_SIZE]) [0..<ADC_CHANNELS] (s, [])"

section \<open>Notions used to state and prove the properties\<close>

text \<open>The log of one channel's pass through a block of \<open>n\<close> samples, started with cursor \<open>c\<close>.\<close>

definition log_row :: "int \<Rightarrow> nat \<Rightarrow> nat \<Rightarrow> event list" where
  "log_row c ch n =
     concat (map (\<lambda>i. [Filtered ch i ((c + int i) mod int FIR_TAPS), Advanced]) [0..<n])"

text \<open>How often a log records an advance of the cursor.\<close>

definition advances :: "event list \<Rightarrow> nat" where
  "advances evs = length (filter (\<lambda>e. e = Advanced) evs)"

text \<open>What one iteration of the beamformer's channel loop does to the accumulator.\<close>

definition beam_step :: "dpa_t list list \<Rightarrow> nat \<Rightarrow> nat \<Rightarrow> dpa_t \<Rightarrow> dpa_t" where
  "beam_step inp i ch acc =
     (if int i - delays ! ch \<ge> 0 then dpa_add acc (inp ! ch ! nat (int i - delays ! ch)) else acc)"

text \<open>
  The beamformer output as the specification words it, with the number of channels that
  are summed and the divisor as parameters: the sum, starting from \<^verbatim>\<open>{0,0}\<close> and taken
  in channel order, of the samples at index \<open>i - delay\<close> of the channels among the first
  \<open>nsum\<close> for which that index is not negative; then the mantissa divided by \<open>ndiv\<close>,
  truncating, with the point kept.
\<close>

definition beamformer_spec :: "nat \<Rightarrow> nat \<Rightarrow> dpa_t list list \<Rightarrow> nat \<Rightarrow> dpa_t" where
  "beamformer_spec nsum ndiv inp i =
    (let total = foldl dpa_add \<lparr>mantissa = 0, point = 0\<rparr>
                   (map (\<lambda>ch. inp ! ch ! nat (int i - delays ! ch))
                        (filter (\<lambda>ch. int i - delays ! ch \<ge> 0) [0..<nsum]))
     in total\<lparr>mantissa := word_of_int (sint (mantissa total) sdiv int ndiv)\<rparr>)"

text \<open>
  The two zero values that occur while a block of mid-scale samples is processed, and
  delay lines (three rows of 32 entries) that hold nothing else.
\<close>

definition zeroish :: "dpa_t \<Rightarrow> bool" where
  "zeroish x \<longleftrightarrow> x = \<lparr>mantissa = 0, point = 0\<rparr> \<or> x = \<lparr>mantissa = 0, point = - 4\<rparr>"

definition zero_lines :: "dpa_t list list \<Rightarrow> bool" where
  "zero_lines D \<longleftrightarrow>
     length D = 3 \<and> (\<forall>c<3. length (D ! c) = 32 \<and> (\<forall>j<32. zeroish (D ! c ! j)))"


section \<open>Facts about the arithmetic core\<close>

lemma scale_loop_pow: "scale_loop n = 10 ^ n"
  by (induction n) simp_all

lemma abs_prod_bound:
  fixes x y :: int
  assumes "\<bar>x\<bar> \<le> 2^31" "\<bar>y\<bar> \<le> 2^31"
  shows "\<bar>x * y\<bar> \<le> 2^62"
proof -
  have "\<bar>x\<bar> * \<bar>y\<bar> \<le> 2^31 * 2^31"
    using assms by (intro mult_mono) simp_all
  then show ?thesis by (simp add: abs_mult)
qed

lemma sint32_abs: "\<bar>sint (x :: 32 word)\<bar> \<le> 2^31"
  using sint_ge [of x] sint_lt [of x] by simp

text \<open>The 64-bit product of two sign-extended 32-bit values never wraps.\<close>

lemma sint_prod64:
  "sint ((scast (x :: 32 word) :: 64 word) * scast (y :: 32 word)) = sint x * sint y"
proof -
  have up: "sint (scast x :: 64 word) = sint x" "sint (scast y :: 64 word) = sint y"
    by (simp_all add: sint_up_scast is_up)
  have b: "\<bar>sint x * sint y\<bar> \<le> 2^62"
    by (rule abs_prod_bound) (rule sint32_abs)+
  have "sint ((scast x :: 64 word) * scast y) = signed_take_bit 63 (sint x * sint y)"
    by (simp add: sint_word_ariths up)
  also have "\<dots> = sint x * sint y"
    using b by (intro signed_take_bit_int_eq_self) simp_all
  finally show ?thesis .
qed

lemma sdiv_exact: "0 < k \<Longrightarrow> (x * k) sdiv k = (x :: int)"
  by (simp add: signed_divide_int_def sgn_mult abs_mult sgn_mult_abs)

lemma narrow64: "(ucast (word_of_int k :: 64 word) :: 32 word) = word_of_int k"
  by (rule ucast_down_wi) (simp add: is_down)

lemma narrow64_sint: "(ucast (w :: 64 word) :: 32 word) = word_of_int (sint w)"
proof -
  have "w = word_of_int (sint w)" by simp
  then have "(ucast w :: 32 word) = ucast (word_of_int (sint w) :: 64 word)" by simp
  then show ?thesis by (simp only: narrow64)
qed

lemma sint32_of_int:
  assumes "INT32_MIN \<le> k" "k \<le> INT32_MAX"
  shows "sint (word_of_int k :: 32 word) = k"
proof -
  have "signed_take_bit 31 k = k"
    by (rule signed_take_bit_int_eq_self)
      (use assms in \<open>simp_all add: INT32_MIN_def INT32_MAX_def\<close>)
  then show ?thesis by (simp add: sint_sbintrunc')
qed

lemma sint8_of_int:
  assumes "- 128 \<le> k" "k \<le> 127"
  shows "sint (word_of_int k :: 8 word) = k"
proof -
  have "signed_take_bit 7 k = k"
    by (rule signed_take_bit_int_eq_self) (use assms in simp_all)
  then show ?thesis by (simp add: sint_sbintrunc')
qed

text \<open>\<^verbatim>\<open>dpa_multiply\<close> in terms of the integers the mantissas stand for.\<close>

lemma dpa_multiply_int:
  "dpa_multiply a b =
    (if sint (mantissa a) * sint (mantissa b) > INT32_MAX
        \<or> sint (mantissa a) * sint (mantissa b) < INT32_MIN
     then \<lparr>mantissa = word_of_int ((sint (mantissa a) * sint (mantissa b)) sdiv 1000),
           point = word_of_int (sint (point a) + sint (point b) + 3)\<rparr>
     else \<lparr>mantissa = word_of_int (sint (mantissa a) * sint (mantissa b)),
           point = word_of_int (sint (point a) + sint (point b))\<rparr>)"
  unfolding dpa_multiply_def Let_def sint_prod64 narrow64
  by (simp only: narrow64_sint sint_prod64)

lemma pow10_not_dvd:
  assumes "d < 32"
  shows "\<not> (2::nat) ^ 32 dvd 10 ^ d"
proof
  assume h: "(2::nat) ^ 32 dvd 10 ^ d"
  have "(10::nat) ^ d = 5 ^ d * 2 ^ d"
    by (simp flip: power_mult_distrib)
  moreover have "coprime ((2::nat) ^ 32) (5 ^ d)"
    by (intro coprime_power_left_iff [THEN iffD2] coprime_power_right_iff [THEN iffD2]) simp_all
  ultimately have "(2::nat) ^ 32 dvd 2 ^ d"
    using h by (simp add: coprime_dvd_mult_right_iff)
  then have "32 \<le> d"
    by (rule power_dvd_imp_le) simp
  with assms show False by simp
qed

text \<open>Fewer than 32 iterations of the scaling loop never leave a zero factor behind.\<close>

lemma scale_loop_nonzero: "n < 32 \<Longrightarrow> scale_loop n \<noteq> 0"
proof -
  assume d: "n < 32"
  have "(10 :: 32 word) ^ n = word_of_nat (10 ^ n)" by simp
  then show ?thesis
    using pow10_not_dvd [OF d] by (simp only: scale_loop_pow word_of_nat_eq_0_iff) simp
qed

lemma sint_scale_loop_small:
  assumes "n \<le> 9"
  shows "sint (scale_loop n) = 10 ^ n"
proof -
  have "(10::int) ^ n \<le> 10 ^ 9"
    using assms by (intro power_increasing) simp_all
  then have r: "INT32_MIN \<le> (10::int) ^ n" "(10::int) ^ n \<le> INT32_MAX"
    unfolding INT32_MIN_def INT32_MAX_def
    by (simp_all add: order_trans [of "-2147483648" 0 "(10::int) ^ n"])
  have "scale_loop n = word_of_int (10 ^ n)"
    by (simp add: scale_loop_pow)
  then show ?thesis
    using sint32_of_int [OF r] by simp
qed

lemma c_div32_zero: "y \<noteq> 0 \<Longrightarrow> c_div32 0 y = Some 0"
  by (simp add: c_div32_def)

subsection \<open>Addition\<close>

text \<open>
  Claim C1. The specification expects \<^verbatim>\<open>add({100,-2},{5,0})\<close>, that is 1.00 + 5, to be
  \<^verbatim>\<open>{600,-2}\<close>, that is 6.00. \<^verbatim>\<open>dpa_add\<close> takes its third branch on this input
  (\<open>a.point < b.point\<close>, shift 2): it multiplies the mantissa of the operand with the
  smaller point by 100 and keeps the larger point, so the result is mantissa 10005 with
  point 0. The result stands for 10005 where the operands stand for 1 and 5.
\<close>

theorem dpa_add_alignment_example:
  "dpa_add \<lparr>mantissa = 100, point = - 2\<rparr> \<lparr>mantissa = 5, point = 0\<rparr> = \<lparr>mantissa = 10005, point = 0\<rparr>
   \<and> dpa_value (dpa_add \<lparr>mantissa = 100, point = - 2\<rparr> \<lparr>mantissa = 5, point = 0\<rparr>) = 10005
   \<and> dpa_value \<lparr>mantissa = 100, point = - 2\<rparr> + dpa_value \<lparr>mantissa = 5, point = 0\<rparr> = 6
   \<and> dpa_value \<lparr>mantissa = 600, point = - 2\<rparr> = 6"
  by (simp add: dpa_add_def dpa_value_def scale_loop_pow)

text \<open>
  Claim C2. \<^verbatim>\<open>{0,0}\<close> is meant to be neutral for \<^verbatim>\<open>dpa_add\<close>. For the value
  \<^verbatim>\<open>{5,-1}\<close>, which stands for one half, the second branch of \<^verbatim>\<open>dpa_add\<close> is taken
  (shift 1, nothing overflows) and the result is \<^verbatim>\<open>{50,0}\<close>, which stands for fifty.
\<close>

theorem dpa_add_zero_seed_example:
  "dpa_add \<lparr>mantissa = 0, point = 0\<rparr> \<lparr>mantissa = 5, point = - 1\<rparr> = \<lparr>mantissa = 50, point = 0\<rparr>
   \<and> dpa_value (dpa_add \<lparr>mantissa = 0, point = 0\<rparr> \<lparr>mantissa = 5, point = - 1\<rparr>) = 50
   \<and> dpa_value \<lparr>mantissa = 5, point = - 1\<rparr> = 1 / 2"
  by (simp add: dpa_add_def dpa_value_def scale_loop_pow)

text \<open>
  Claim C3. When the points of the two operands differ by more than 10, \<^verbatim>\<open>dpa_add\<close>
  returns the operand with the larger point as it is, whichever argument position it is
  passed in.
\<close>

theorem dpa_add_large_shift:
  "10 < sint (point a) - sint (point b) \<Longrightarrow> dpa_add a b = a \<and> dpa_add b a = a"
  by (auto simp: dpa_add_def Let_def)

theorem dpa_add_large_shift_witness:
  "10 < sint (point \<lparr>mantissa = 7, point = 6\<rparr>) - sint (point \<lparr>mantissa = 123, point = - 5\<rparr>)
   \<and> dpa_add \<lparr>mantissa = 7, point = 6\<rparr> \<lparr>mantissa = 123, point = - 5\<rparr> = \<lparr>mantissa = 7, point = 6\<rparr>
   \<and> dpa_add \<lparr>mantissa = 123, point = - 5\<rparr> \<lparr>mantissa = 7, point = 6\<rparr> = \<lparr>mantissa = 7, point = 6\<rparr>"
  using dpa_add_large_shift [of "\<lparr>mantissa = 7, point = 6\<rparr>" "\<lparr>mantissa = 123, point = - 5\<rparr>"]
  by simp

subsection \<open>Multiplication\<close>

text \<open>
  Claim C4, as the code has it. With \<open>p\<close> the exact product of the two mantissas:
  if \<open>p\<close> is outside the signed 32-bit range, the result mantissa is the low 32 bits of
  \<open>p\<close> divided by 1000 (truncating), which is that quotient itself whenever the quotient
  fits in 32 bits, and the point is the sum of the points plus 3 narrowed to 8 bits, which
  is that sum itself whenever it lies between -128 and 127. Otherwise the mantissa is
  \<open>p\<close> and the point is the sum of the points, narrowed in the same way.
\<close>

theorem dpa_multiply_narrowed:
  "let p = sint (mantissa a) * sint (mantissa b);
       sc = sint (point a) + sint (point b);
       r = dpa_multiply a b
   in if p > INT32_MAX \<or> p < INT32_MIN
      then mantissa r = word_of_int (p sdiv 1000) \<and> point r = word_of_int (sc + 3)
         \<and> (INT32_MIN \<le> p sdiv 1000 \<and> p sdiv 1000 \<le> INT32_MAX \<longrightarrow> sint (mantissa r) = p sdiv 1000)
         \<and> (- 128 \<le> sc + 3 \<and> sc + 3 \<le> 127 \<longrightarrow> sint (point r) = sc + 3)
      else sint (mantissa r) = p \<and> point r = word_of_int sc
         \<and> (- 128 \<le> sc \<and> sc \<le> 127 \<longrightarrow> sint (point r) = sc)"
  unfolding Let_def dpa_multiply_int
  using sint32_of_int sint8_of_int
  by (auto simp only: dpa_t.simps if_True if_False split: if_splits)

theorem dpa_multiply_narrowed_witness:
  "sint (mantissa (dpa_multiply \<lparr>mantissa = 100000, point = - 4\<rparr> \<lparr>mantissa = 100000, point = - 4\<rparr>))
     = 10000000
   \<and> sint (point (dpa_multiply \<lparr>mantissa = 100000, point = - 4\<rparr> \<lparr>mantissa = 100000, point = - 4\<rparr>))
     = - 5"
  using dpa_multiply_narrowed
    [of "\<lparr>mantissa = 100000, point = - 4\<rparr>" "\<lparr>mantissa = 100000, point = - 4\<rparr>"]
  by (simp add: Let_def INT32_MAX_def INT32_MIN_def signed_divide_int_def)

text \<open>
  The claim as the specification words it fails where the quotient does not fit either:
  2000000 times 2000000 is 4000000000000, outside the 32-bit range; divided by 1000 it is
  4000000000, and the mantissa that is stored is -294967296.
\<close>

theorem dpa_multiply_quotient_overflow:
  "sint (mantissa \<lparr>mantissa = 2000000, point = 0\<rparr>) * sint (mantissa \<lparr>mantissa = 2000000, point = 0\<rparr>)
     > INT32_MAX
   \<and> (sint (mantissa \<lparr>mantissa = 2000000, point = 0\<rparr>)
        * sint (mantissa \<lparr>mantissa = 2000000, point = 0\<rparr>)) sdiv 1000 = 4000000000
   \<and> sint (mantissa (dpa_multiply \<lparr>mantissa = 2000000, point = 0\<rparr> \<lparr>mantissa = 2000000, point = 0\<rparr>))
     = - 294967296"
  by (simp add: dpa_multiply_def Let_def INT32_MAX_def INT32_MIN_def signed_divide_int_def)

subsection \<open>Conversions\<close>

text \<open>
  Claim C5, as the code has it. For a decimal-place count \<open>d\<close> from 0 to 31 and a value
  \<open>v\<close> such that \<open>v \<times> 10\<^sup>d\<close> fits in the signed 32-bit range, converting \<open>v\<close> with
  \<^verbatim>\<open>dpa_from_int\<close> and back with \<^verbatim>\<open>dpa_to_int\<close> returns \<open>v\<close>.
\<close>

theorem dpa_round_trip:
  assumes d: "0 \<le> d" "d < 32"
    and fits: "INT32_MIN \<le> sint v * 10 ^ nat d" "sint v * 10 ^ nat d \<le> INT32_MAX"
  shows "dpa_to_int (dpa_from_int v d) = Some v"
proof (cases "d = 0")
  case True
  then show ?thesis
    by (simp add: dpa_to_int_def dpa_from_int_def)
next
  case False
  define n where "n = nat d"
  with d False have n: "0 < n" "n < 32" "d = int n" by simp_all
  have pt: "sint (- word_of_int d :: 8 word) = - d"
    using sint8_of_int [of "- d"] d by simp
  have eq: "dpa_to_int (dpa_from_int v d) = c_div32 (v * scale_loop n) (scale_loop n)"
    using False d by (simp add: dpa_to_int_def dpa_from_int_def pt n_def)
  have nz: "scale_loop n \<noteq> 0"
    by (rule scale_loop_nonzero) fact
  show ?thesis
  proof (cases "n \<le> 9")
    case True
    have s: "sint (scale_loop n) = 10 ^ n"
      by (rule sint_scale_loop_small) fact
    have "v * scale_loop n = word_of_int (sint v * 10 ^ n)"
      by (simp add: scale_loop_pow)
    then have m: "sint (v * scale_loop n) = sint v * 10 ^ n"
      using sint32_of_int [OF fits] by (simp add: n_def)
    have "(sint v * 10 ^ n) sdiv 10 ^ n = sint v"
      by (rule sdiv_exact) simp
    then show ?thesis
      using nz by (simp add: eq c_div32_def s m)
  next
    case False
    then have "(10::int) ^ 10 \<le> 10 ^ n"
      by (intro power_increasing) simp_all
    then have big: "(2147483648::int) < 10 ^ n" by simp
    have "sint v = 0"
    proof (rule ccontr)
      assume "sint v \<noteq> 0"
      then have "1 \<le> \<bar>sint v\<bar>" by simp
      then have "1 * 10 ^ n \<le> \<bar>sint v\<bar> * 10 ^ n"
        by (intro mult_right_mono) simp_all
      then have "10 ^ n \<le> \<bar>sint v * 10 ^ n\<bar>"
        by (simp add: abs_mult)
      moreover have "\<bar>sint v * 10 ^ n\<bar> \<le> 2147483648"
        using fits by (simp add: n_def INT32_MIN_def INT32_MAX_def)
      ultimately show False using big by simp
    qed
    then have "v = 0" by (simp add: signed_eq_0_iff)
    then show ?thesis
      using nz eq by (simp add: c_div32_zero)
  qed
qed

theorem dpa_round_trip_witness:
  "dpa_to_int (dpa_from_int (- 7) 3) = Some (- 7)"
  using dpa_round_trip [of 3 "- 7"] by (simp add: INT32_MIN_def INT32_MAX_def)

text \<open>
  Without the bound on \<open>d\<close> the round trip fails: \<open>0 \<times> 10\<^sup>3\<^sup>2\<close> fits in 32 bits, the value
  \<^verbatim>\<open>dpa_from_int(0, 32)\<close> is \<^verbatim>\<open>{0,-32}\<close>, and \<^verbatim>\<open>dpa_to_int\<close> divides it by the scale
  that 32 iterations of the loop leave in an \<^verbatim>\<open>int32_t\<close>, which is zero.
\<close>

theorem dpa_round_trip_zero_divisor:
  "INT32_MIN \<le> sint (0 :: 32 word) * 10 ^ nat 32 \<and> sint (0 :: 32 word) * 10 ^ nat 32 \<le> INT32_MAX
   \<and> dpa_from_int 0 32 = \<lparr>mantissa = 0, point = - 32\<rparr>
   \<and> scale_loop 32 = 0
   \<and> dpa_to_int (dpa_from_int 0 32) = None"
  by (simp add: dpa_to_int_def dpa_from_int_def c_div32_def scale_loop_pow INT32_MIN_def INT32_MAX_def)


section \<open>Facts about the FIR filter\<close>

text \<open>
  Claim C10. A call of \<^verbatim>\<open>fir_filter\<close> changes nothing of the state but the delay lines:
  the cursor and every buffer are as before. In the delay lines, the number of rows and
  the length of every row are as before, every entry other than the one of the given
  channel at the cursor is as before, and that entry, when channel and cursor are within
  the array, holds the input. The coefficient table is a constant of the program.
\<close>

theorem fir_filter_frame:
  "let s' = snd (fir_filter channel input s) in
     s' = s\<lparr>fir_delay := fir_delay s'\<rparr>
     \<and> fir_index s' = fir_index s
     \<and> length (fir_delay s') = length (fir_delay s)
     \<and> (\<forall>c. length (fir_delay s' ! c) = length (fir_delay s ! c))
     \<and> (\<forall>c j. c \<noteq> channel \<or> j \<noteq> nat (fir_index s)
           \<longrightarrow> fir_delay s' ! c ! j = fir_delay s ! c ! j)
     \<and> (channel < length (fir_delay s) \<and> nat (fir_index s) < length (fir_delay s ! channel)
           \<longrightarrow> fir_delay s' ! channel ! nat (fir_index s) = input)"
proof -
  define D where "D = fir_delay s"
  define k where "k = nat (fir_index s)"
  have s': "snd (fir_filter channel input s)
              = s\<lparr>fir_delay := D[channel := (D ! channel)[k := input]]\<rparr>"
    by (simp add: fir_filter_def Let_def D_def k_def)
  have len: "length ((D[channel := (D ! channel)[k := input]]) ! c) = length (D ! c)" for c
    by (cases "c = channel"; cases "channel < length D") (simp_all add: list_update_beyond)
  have other: "(D[channel := (D ! channel)[k := input]]) ! c ! j = D ! c ! j"
    if "c \<noteq> channel \<or> j \<noteq> k" for c j
    using that
    by (cases "c = channel"; cases "channel < length D") (simp_all add: list_update_beyond)
  show ?thesis
    unfolding Let_def s' using len other by (simp add: D_def k_def)
qed

theorem fir_filter_frame_witness:
  "1 < length (fir_delay initial_state)
   \<and> nat (fir_index initial_state) < length (fir_delay initial_state ! 1)
   \<and> fir_delay (snd (fir_filter 1 \<lparr>mantissa = 5, point = - 4\<rparr> initial_state)) ! 1 ! 0
       = \<lparr>mantissa = 5, point = - 4\<rparr>
   \<and> fir_delay (snd (fir_filter 1 \<lparr>mantissa = 5, point = - 4\<rparr> initial_state)) ! 1 ! 7
       = fir_delay initial_state ! 1 ! 7
   \<and> fir_delay (snd (fir_filter 1 \<lparr>mantissa = 5, point = - 4\<rparr> initial_state)) ! 2 ! 0
       = fir_delay initial_state ! 2 ! 0
   \<and> fir_index (snd (fir_filter 1 \<lparr>mantissa = 5, point = - 4\<rparr> initial_state)) = 0"
proof -
  have i: "fir_index initial_state = 0"
    "fir_delay initial_state = replicate 3 (replicate 32 \<lparr>mantissa = 0, point = 0\<rparr>)"
    by (simp_all add: initial_state_def)
  have h: "1 < length (fir_delay initial_state)
           \<and> nat (fir_index initial_state) < length (fir_delay initial_state ! 1)"
    by (simp add: i)
  note f = fir_filter_frame [of 1 "\<lparr>mantissa = 5, point = - 4\<rparr>" initial_state, unfolded Let_def]
  from f h have a: "fir_delay (snd (fir_filter 1 \<lparr>mantissa = 5, point = - 4\<rparr> initial_state)) ! 1 ! 0
       = \<lparr>mantissa = 5, point = - 4\<rparr>"
    by (simp add: i)
  from f have b: "fir_delay (snd (fir_filter 1 \<lparr>mantissa = 5, point = - 4\<rparr> initial_state)) ! 1 ! 7
       = fir_delay initial_state ! 1 ! 7"
    by (simp add: i)
  from f have c: "fir_delay (snd (fir_filter 1 \<lparr>mantissa = 5, point = - 4\<rparr> initial_state)) ! 2 ! 0
       = fir_delay initial_state ! 2 ! 0"
    by simp
  from f have d: "fir_index (snd (fir_filter 1 \<lparr>mantissa = 5, point = - 4\<rparr> initial_state)) = 0"
    by (simp add: i)
  show ?thesis
    using h a b c d by blast
qed

lemma fir_impulse_eval:
  "fst (fir_filter 0 \<lparr>mantissa = 1, point = 0\<rparr> initial_state) = \<lparr>mantissa = - 41000000, point = 0\<rparr>"
  "fst (fir_filter 0 (dpa_from_int 1 4) initial_state) = \<lparr>mantissa = 1550565376, point = 0\<rparr>"
  by code_simp+

text \<open>
  Claim C6. The first call of an impulse response: all delay lines cleared, cursor 0, and
  an input that stands for 1, either \<^verbatim>\<open>{1,0}\<close> or, as the pipeline would convert it,
  \<^verbatim>\<open>dpa_from_int(1, 4)\<close>. The output should stand for coefficient 0, which is
  -0.000041. For \<^verbatim>\<open>{1,0}\<close> the first product is \<^verbatim>\<open>{-41,-6}\<close>, and adding it to the
  accumulator \<^verbatim>\<open>{0,0}\<close> gives \<^verbatim>\<open>{-41000000,0}\<close>; the other 31 products are zero.
\<close>

theorem fir_impulse_first_output:
  "fst (fir_filter 0 \<lparr>mantissa = 1, point = 0\<rparr> initial_state) = \<lparr>mantissa = - 41000000, point = 0\<rparr>
   \<and> dpa_value \<lparr>mantissa = 1, point = 0\<rparr> = 1
   \<and> dpa_value (fst (fir_filter 0 \<lparr>mantissa = 1, point = 0\<rparr> initial_state)) = - 41000000
   \<and> dpa_value (dpa_from_int 1 4) = 1
   \<and> dpa_value (fst (fir_filter 0 (dpa_from_int 1 4) initial_state)) = 1550565376
   \<and> dpa_value (fir_coeffs ! 0) = - 41 / 1000000"
  unfolding fir_impulse_eval
  by (simp add: dpa_value_def dpa_from_int_def fir_coeffs_def scale_loop_pow)

section \<open>Facts about the cursor during a block\<close>

lemma smod_nonneg: "0 \<le> a \<Longrightarrow> 0 < b \<Longrightarrow> a smod b = a mod (b :: int)"
  by (simp add: signed_modulo_int_def sgn_if)

lemma fir_sample_index: "fir_index (fir_sample ch i s) = (fir_index s + 1) smod int FIR_TAPS"
  by (simp add: fir_sample_def fir_filter_def Let_def)

lemma fir_sample_index_mod:
  "0 \<le> fir_index s \<Longrightarrow> fir_index (fir_sample ch i s) = (fir_index s + 1) mod int FIR_TAPS"
  by (simp add: fir_sample_index smod_nonneg FIR_TAPS_def)

lemma fir_inner_logged:
  assumes "0 \<le> fir_index s" "fir_index s < int FIR_TAPS"
  shows "fold (fir_sample_logged ch) [0..<n] (s, evs)
           = (fold (fir_sample ch) [0..<n] s, evs @ log_row (fir_index s) ch n)
         \<and> fir_index (fold (fir_sample ch) [0..<n] s) = (fir_index s + int n) mod int FIR_TAPS"
proof (induction n)
  case 0
  show ?case using assms by (simp add: log_row_def)
next
  case (Suc n)
  let ?t = "fold (fir_sample ch) [0..<n] s"
  have idx: "fir_index ?t = (fir_index s + int n) mod int FIR_TAPS"
    using Suc.IH by simp
  then have nonneg: "0 \<le> fir_index ?t"
    by (simp add: FIR_TAPS_def)
  have "fir_index (fir_sample ch n ?t) = (fir_index s + int (Suc n)) mod int FIR_TAPS"
    using fir_sample_index_mod [OF nonneg] idx by (simp add: mod_simps ac_simps)
  then show ?case
    using Suc.IH idx by (simp add: fir_sample_logged_def log_row_def)
qed

text \<open>
  A whole channel moves the cursor by \<open>BUFFER_SIZE\<close>, a multiple of \<open>FIR_TAPS\<close>, so
  every channel starts with the cursor the block started with.
\<close>

lemma fir_outer_logged:
  assumes "0 \<le> fir_index s" "fir_index s < int FIR_TAPS"
  shows "fold (\<lambda>ch. fold (fir_sample_logged ch) [0..<BUFFER_SIZE]) [0..<m] (s, evs)
           = (fold (\<lambda>ch. fold (fir_sample ch) [0..<BUFFER_SIZE]) [0..<m] s,
              evs @ concat (map (\<lambda>ch. log_row (fir_index s) ch BUFFER_SIZE) [0..<m]))
         \<and> fir_index (fold (\<lambda>ch. fold (fir_sample ch) [0..<BUFFER_SIZE]) [0..<m] s) = fir_index s"
proof (induction m)
  case 0
  show ?case by simp
next
  case (Suc m)
  let ?t = "fold (\<lambda>ch. fold (fir_sample ch) [0..<BUFFER_SIZE]) [0..<m] s"
  have idx: "fir_index ?t = fir_index s" using Suc.IH by simp
  have r: "0 \<le> fir_index ?t" "fir_index ?t < int FIR_TAPS"
    using assms idx by simp_all
  have wrap: "(fir_index s + int BUFFER_SIZE) mod int FIR_TAPS = fir_index s"
    using assms unfolding BUFFER_SIZE_def FIR_TAPS_def by presburger
  show ?case
    using Suc.IH fir_inner_logged [OF r, of m BUFFER_SIZE] idx wrap by simp
qed

lemma fir_stage_logged_eq:
  assumes "0 \<le> fir_index s" "fir_index s < int FIR_TAPS"
  shows "fir_stage_logged s
           = (fir_stage s, concat (map (\<lambda>ch. log_row (fir_index s) ch BUFFER_SIZE) [0..<ADC_CHANNELS]))"
    and "fir_index (fir_stage s) = fir_index s"
  using fir_outer_logged [OF assms, of ADC_CHANNELS "[]"]
  by (simp_all add: fir_stage_logged_def fir_stage_def)

lemma advances_Nil: "advances [] = 0"
  by (simp add: advances_def)

lemma advances_append: "advances (xs @ ys) = advances xs + advances ys"
  by (simp add: advances_def)

lemma advances_log_row: "advances (log_row c ch n) = n"
  by (induction n) (simp_all add: log_row_def advances_def)

lemma advances_rows: "advances (concat (map (\<lambda>ch. log_row c ch n) [0..<m])) = m * n"
  by (induction m) (simp_all add: advances_append advances_log_row advances_Nil)

lemma log_rows_prefix:
  assumes "0 < m" "2 \<le> n"
  shows "take 4 (concat (map (\<lambda>ch. log_row c ch n) [0..<m]))
           = [Filtered 0 0 (c mod int FIR_TAPS), Advanced,
              Filtered 0 1 ((c + 1) mod int FIR_TAPS), Advanced]"
proof -
  from assms obtain m' where m: "m = Suc m'" by (cases m) auto
  have a: "[0..<m] = 0 # [1..<m]"
    unfolding m by (simp add: upt_conv_Cons)
  have b: "[0..<n] = 0 # 1 # [2..<n]"
    using assms(2) by (simp add: upt_conv_Cons numeral_2_eq_2)
  show ?thesis
    unfolding a by (simp add: log_row_def b)
qed

text \<open>
  Claim C7, as the code has it. During the filtering of one block that starts with the
  cursor at \<open>c\<close>, the loop runs channel by channel and advances the cursor after every
  call of \<^verbatim>\<open>fir_filter\<close>, that is \<open>ADC_CHANNELS \<times> BUFFER_SIZE\<close> times. Sample index \<open>i\<close>
  of every channel is filtered with the cursor at \<open>(c + i) mod FIR_TAPS\<close>, the same value
  for all channels because \<open>BUFFER_SIZE\<close> is a multiple of \<open>FIR_TAPS\<close>, and the block
  leaves the cursor at \<open>c\<close>.
\<close>

theorem fir_cursor_schedule:
  assumes "0 \<le> fir_index s" "fir_index s < int FIR_TAPS"
  shows "fir_stage_logged s =
           (fir_stage s,
            concat (map (\<lambda>ch. concat (map (\<lambda>i.
              [Filtered ch i ((fir_index s + int i) mod int FIR_TAPS), Advanced]) [0..<BUFFER_SIZE]))
              [0..<ADC_CHANNELS]))
         \<and> advances (snd (fir_stage_logged s)) = ADC_CHANNELS * BUFFER_SIZE
         \<and> fir_index (fir_stage s) = fir_index s"
  using fir_stage_logged_eq [OF assms] advances_rows [of "fir_index s" BUFFER_SIZE ADC_CHANNELS]
  by (simp add: log_row_def)

theorem fir_cursor_schedule_witness:
  "0 \<le> fir_index initial_state \<and> fir_index initial_state < int FIR_TAPS
   \<and> fir_stage_logged initial_state =
       (fir_stage initial_state,
        concat (map (\<lambda>ch. concat (map (\<lambda>i.
          [Filtered ch i ((0 + int i) mod int FIR_TAPS), Advanced]) [0..<BUFFER_SIZE]))
          [0..<ADC_CHANNELS]))
   \<and> advances (snd (fir_stage_logged initial_state)) = ADC_CHANNELS * BUFFER_SIZE
   \<and> fir_index (fir_stage initial_state) = 0"
proof -
  have i: "fir_index initial_state = 0"
    by (simp add: initial_state_def)
  have h: "0 \<le> fir_index initial_state" "fir_index initial_state < int FIR_TAPS"
    by (simp_all add: i FIR_TAPS_def)
  show ?thesis
    using fir_cursor_schedule [OF h] h unfolding i by blast
qed

text \<open>
  The claim as the specification words it has the cursor advanced \<open>BUFFER_SIZE\<close> times
  per block, each time after all channels have been filtered for a sample index. On the
  first block the log holds 768 advances, not 256, and it begins with channel 0 filtered
  for sample index 0, an advance, and channel 0 filtered for sample index 1: the cursor has
  moved before channels 1 and 2 are filtered for sample index 0.
\<close>

theorem fir_cursor_advanced_per_call:
  "advances (snd (fir_stage_logged initial_state)) = 768
   \<and> BUFFER_SIZE = 256
   \<and> take 4 (snd (fir_stage_logged initial_state))
       = [Filtered 0 0 0, Advanced, Filtered 0 1 1, Advanced]"
proof -
  have i: "fir_index initial_state = 0"
    by (simp add: initial_state_def)
  have h: "0 \<le> fir_index initial_state" "fir_index initial_state < int FIR_TAPS"
    by (simp_all add: i FIR_TAPS_def)
  have e: "snd (fir_stage_logged initial_state)
             = concat (map (\<lambda>ch. log_row 0 ch BUFFER_SIZE) [0..<ADC_CHANNELS])"
    using fir_stage_logged_eq(1) [OF h] by (simp add: i)
  have "advances (snd (fir_stage_logged initial_state)) = ADC_CHANNELS * BUFFER_SIZE"
    unfolding e by (rule advances_rows)
  then have c: "advances (snd (fir_stage_logged initial_state)) = 768"
    by (simp add: ADC_CHANNELS_def BUFFER_SIZE_def)
  have "0 < ADC_CHANNELS" "2 \<le> BUFFER_SIZE"
    by (simp_all add: ADC_CHANNELS_def BUFFER_SIZE_def)
  then have "take 4 (snd (fir_stage_logged initial_state))
       = [Filtered 0 0 (0 mod int FIR_TAPS), Advanced,
          Filtered 0 1 ((0 + 1) mod int FIR_TAPS), Advanced]"
    unfolding e by (rule log_rows_prefix)
  then have t: "take 4 (snd (fir_stage_logged initial_state))
       = [Filtered 0 0 0, Advanced, Filtered 0 1 1, Advanced]"
    by (simp add: FIR_TAPS_def)
  show ?thesis
    using c t by (simp add: BUFFER_SIZE_def)
qed

section \<open>Facts about the beamformer\<close>

lemma beam_channel_upd:
  "i < length out \<Longrightarrow> beam_channel inp i ch out = out[i := beam_step inp i ch (out ! i)]"
  by (simp add: beam_channel_def beam_step_def Let_def)

lemma beam_fold:
  "i < length out \<Longrightarrow>
   fold (beam_channel inp i) chs out = out[i := fold (beam_step inp i) chs (out ! i)]"
  by (induction chs arbitrary: out) (simp_all add: beam_channel_upd)

lemma beam_step_fold:
  "fold (beam_step inp i) chs acc =
     foldl dpa_add acc (map (\<lambda>ch. inp ! ch ! nat (int i - delays ! ch))
                            (filter (\<lambda>ch. int i - delays ! ch \<ge> 0) chs))"
  by (induction chs arbitrary: acc) (simp_all add: beam_step_def)

lemma beam_sample_eq:
  "i < length out \<Longrightarrow>
   beam_sample inp i out = out[i := beamformer_spec (min NUM_SENSORS ADC_CHANNELS) NUM_SENSORS inp i]"
  by (simp add: beam_sample_def beamformer_spec_def Let_def beam_fold beam_step_fold)

lemma beam_loop:
  "n \<le> length out \<Longrightarrow>
   length (fold (beam_sample inp) [0..<n] out) = length out
   \<and> (\<forall>i<n. fold (beam_sample inp) [0..<n] out ! i
          = beamformer_spec (min NUM_SENSORS ADC_CHANNELS) NUM_SENSORS inp i)"
proof (induction n)
  case 0
  show ?case by simp
next
  case (Suc n)
  then show ?case
    by (auto simp: beam_sample_eq nth_list_update less_Suc_eq)
qed

lemma beam_nth:
  "i < samples \<Longrightarrow> samples \<le> length out \<Longrightarrow>
   delay_and_sum_beamforming inp out samples ! i = beamformer_spec 3 4 inp i"
  using beam_loop [of samples out inp]
  by (simp add: delay_and_sum_beamforming_def NUM_SENSORS_def ADC_CHANNELS_def)

lemma beam_length:
  "samples \<le> length out \<Longrightarrow> length (delay_and_sum_beamforming inp out samples) = length out"
  using beam_loop [of samples out inp] by (simp add: delay_and_sum_beamforming_def)

text \<open>
  Claim C8, as the code has it. For every sample index \<open>i\<close> below \<open>samples\<close>, the
  beamformer output is the scaled-value sum, starting from \<^verbatim>\<open>{0,0}\<close>, of the samples at
  index \<open>i - delay\<close> of those of the first three channels (the channels below both
  \<^verbatim>\<open>NUM_SENSORS\<close> and \<^verbatim>\<open>ADC_CHANNELS\<close>) for which that index is not negative, with
  the mantissa then divided by \<^verbatim>\<open>NUM_SENSORS\<close>, which is four, truncating, and the point
  kept. The output array has room for \<open>samples\<close> entries.
\<close>

theorem beamformer_output:
  "i < samples \<Longrightarrow> samples \<le> length output \<Longrightarrow>
   delay_and_sum_beamforming input_channels output samples ! i
     = beamformer_spec 3 4 input_channels i"
  by (rule beam_nth)

theorem beamformer_output_witness:
  "(6::nat) < 256 \<and> 256 \<le> length (replicate 256 \<lparr>mantissa = 0, point = 0\<rparr>)
   \<and> delay_and_sum_beamforming (replicate 4 (replicate 256 \<lparr>mantissa = 4, point = 0\<rparr>))
        (replicate 256 \<lparr>mantissa = 0, point = 0\<rparr>) 256 ! 6 = \<lparr>mantissa = 3, point = 0\<rparr>"
  using beamformer_output [of 6 256 "replicate 256 \<lparr>mantissa = 0, point = 0\<rparr>"
      "replicate 4 (replicate 256 \<lparr>mantissa = 4, point = 0\<rparr>)"]
  by (simp add: beamformer_spec_def delays_def dpa_add_def signed_divide_int_def upt_rec)

text \<open>
  With one channel count for both the channels that are summed and the divisor, the
  claim fails for either count. The input has the four rows the parameter is declared
  with, every sample being \<^verbatim>\<open>{4,0}\<close>. At sample index 6 the code adds three samples and
  divides 12 by 4; summing and dividing by three gives 4, and so does summing and dividing
  by four.
\<close>

theorem beamformer_count_mismatch:
  "delay_and_sum_beamforming (replicate 4 (replicate 256 \<lparr>mantissa = 4, point = 0\<rparr>))
        (replicate 256 \<lparr>mantissa = 0, point = 0\<rparr>) 256 ! 6 = \<lparr>mantissa = 3, point = 0\<rparr>
   \<and> beamformer_spec 3 3 (replicate 4 (replicate 256 \<lparr>mantissa = 4, point = 0\<rparr>)) 6
       = \<lparr>mantissa = 4, point = 0\<rparr>
   \<and> beamformer_spec 4 4 (replicate 4 (replicate 256 \<lparr>mantissa = 4, point = 0\<rparr>)) 6
       = \<lparr>mantissa = 4, point = 0\<rparr>"
  using beam_nth [of 6 256 "replicate 256 \<lparr>mantissa = 0, point = 0\<rparr>"
      "replicate 4 (replicate 256 \<lparr>mantissa = 4, point = 0\<rparr>)"]
  by (simp add: beamformer_spec_def delays_def dpa_add_def signed_divide_int_def upt_rec)


section \<open>A block of mid-scale samples\<close>

lemma dpa_multiply_zero_right:
  "mantissa e = 0 \<Longrightarrow>
   dpa_multiply c e = \<lparr>mantissa = 0, point = word_of_int (sint (point c) + sint (point e))\<rparr>"
  by (simp add: dpa_multiply_int INT32_MAX_def INT32_MIN_def)

lemma dpa_multiply_zero_left:
  "mantissa c = 0 \<Longrightarrow>
   dpa_multiply c e = \<lparr>mantissa = 0, point = word_of_int (sint (point c) + sint (point e))\<rparr>"
  by (simp add: dpa_multiply_int INT32_MAX_def INT32_MIN_def)

lemma fir_coeffs_point: "i < 32 \<Longrightarrow> point (fir_coeffs ! i) = - 6"
proof -
  assume i: "i < 32"
  have "\<forall>c\<in>set fir_coeffs. point c = - 6"
    by (simp add: fir_coeffs_def)
  moreover have "length fir_coeffs = 32"
    by (simp add: fir_coeffs_def)
  ultimately show ?thesis using i by simp
qed

lemma dpa_add_zero_m6: "dpa_add \<lparr>mantissa = 0, point = 0\<rparr> \<lparr>mantissa = 0, point = - 6\<rparr> = \<lparr>mantissa = 0, point = 0\<rparr>"
  by (simp add: dpa_add_def)

lemma dpa_add_zero_m10: "dpa_add \<lparr>mantissa = 0, point = 0\<rparr> \<lparr>mantissa = 0, point = - 10\<rparr> = \<lparr>mantissa = 0, point = 0\<rparr>"
  by (simp add: dpa_add_def)

lemma dpa_add_zero_m4: "dpa_add \<lparr>mantissa = 0, point = 0\<rparr> \<lparr>mantissa = 0, point = - 4\<rparr> = \<lparr>mantissa = 0, point = 0\<rparr>"
  by (simp add: dpa_add_def)

lemma dpa_add_zero_zero: "dpa_add \<lparr>mantissa = 0, point = 0\<rparr> \<lparr>mantissa = 0, point = 0\<rparr> = \<lparr>mantissa = 0, point = 0\<rparr>"
  by (simp add: dpa_add_def)

lemma tap_zero:
  assumes "zeroish e" "i < 32"
  shows "dpa_add \<lparr>mantissa = 0, point = 0\<rparr> (dpa_multiply (fir_coeffs ! i) e) = \<lparr>mantissa = 0, point = 0\<rparr>"
proof -
  have m: "mantissa e = 0" using assms(1) by (auto simp: zeroish_def)
  from assms(1) consider "e = \<lparr>mantissa = 0, point = 0\<rparr>" | "e = \<lparr>mantissa = 0, point = - 4\<rparr>"
    by (auto simp: zeroish_def)
  then show ?thesis
  proof cases
    case 1
    then show ?thesis
      by (simp add: dpa_multiply_zero_right fir_coeffs_point [OF assms(2)] dpa_add_zero_m6)
  next
    case 2
    then show ?thesis
      by (simp add: dpa_multiply_zero_right fir_coeffs_point [OF assms(2)] dpa_add_zero_m10)
  qed
qed

lemma fold_fixed: "(\<And>i. i \<in> set xs \<Longrightarrow> f i z = z) \<Longrightarrow> fold f xs z = z"
  by (induction xs) simp_all

lemma delay_idx_range:
  assumes "0 \<le> k" "k < 32" "i < 32"
  shows "nat ((k - int i + int FIR_TAPS) smod int FIR_TAPS) < 32"
proof -
  have "0 \<le> k - int i + 32" using assms by simp
  then have "(k - int i + 32) smod 32 = (k - int i + 32) mod 32"
    by (simp add: smod_nonneg)
  then show ?thesis by (simp add: FIR_TAPS_def)
qed

lemma zero_lines_row:
  "zero_lines D \<Longrightarrow> ch < 3 \<Longrightarrow> length (D ! ch) = 32 \<and> (\<forall>j<32. zeroish (D ! ch ! j))"
  by (simp add: zero_lines_def)

lemma zero_lines_update:
  assumes "zero_lines D" "zeroish x"
  shows "zero_lines (D[ch := (D ! ch)[k := x]])"
proof -
  have len: "length D = 3" using assms(1) by (simp add: zero_lines_def)
  have "length (D[ch := (D ! ch)[k := x]] ! c) = 32
        \<and> (\<forall>j<32. zeroish (D[ch := (D ! ch)[k := x]] ! c ! j))" if c: "c < 3" for c
  proof (cases "c = ch")
    case True
    have r: "length (D ! ch) = 32" "\<forall>j<32. zeroish (D ! ch ! j)"
      using zero_lines_row [OF assms(1)] c True by simp_all
    have "zeroish ((D ! ch)[k := x] ! j)" if "j < 32" for j
      using that r assms(2) by (cases "j = k") simp_all
    then show ?thesis
      using True c len r by simp
  next
    case False
    then show ?thesis
      using zero_lines_row [OF assms(1) c] by simp
  qed
  then show ?thesis
    unfolding zero_lines_def using len by simp
qed

lemma fir_filter_zero:
  assumes D: "zero_lines (fir_delay s)" and k: "0 \<le> fir_index s" "fir_index s < 32"
    and ch: "ch < 3" and x: "zeroish x"
  shows "fst (fir_filter ch x s) = \<lparr>mantissa = 0, point = 0\<rparr>"
    and "snd (fir_filter ch x s) = s\<lparr>fir_delay := (fir_delay s)[ch := (fir_delay s ! ch)[nat (fir_index s) := x]]\<rparr>"
    and "zero_lines (fir_delay (snd (fir_filter ch x s)))"
proof -
  let ?D = "(fir_delay s)[ch := (fir_delay s ! ch)[nat (fir_index s) := x]]"
  let ?s1 = "s\<lparr>fir_delay := ?D\<rparr>"
  have zl: "zero_lines ?D" by (rule zero_lines_update) fact+
  have tap: "fir_tap ch ?s1 i \<lparr>mantissa = 0, point = 0\<rparr> = \<lparr>mantissa = 0, point = 0\<rparr>"
    if "i \<in> set [0..<FIR_TAPS]" for i
  proof -
    from that have i: "i < 32" by (simp add: FIR_TAPS_def)
    have j: "nat ((fir_index s - int i + int FIR_TAPS) smod int FIR_TAPS) < 32"
      by (rule delay_idx_range) fact+
    have "zeroish (?D ! ch ! nat ((fir_index s - int i + int FIR_TAPS) smod int FIR_TAPS))"
      using zero_lines_row [OF zl ch] j by blast
    then show ?thesis
      by (simp add: fir_tap_def Let_def tap_zero [OF _ i])
  qed
  have "fold (fir_tap ch ?s1) [0..<FIR_TAPS] \<lparr>mantissa = 0, point = 0\<rparr> = \<lparr>mantissa = 0, point = 0\<rparr>"
    by (rule fold_fixed) (rule tap)
  then show "fst (fir_filter ch x s) = \<lparr>mantissa = 0, point = 0\<rparr>"
    by (simp add: fir_filter_def Let_def)
  show "snd (fir_filter ch x s) = ?s1"
    by (simp add: fir_filter_def Let_def)
  then show "zero_lines (fir_delay (snd (fir_filter ch x s)))"
    using zl by simp
qed

lemma fir_sample_zero:
  assumes D: "zero_lines (fir_delay s)" and k: "0 \<le> fir_index s" "fir_index s < 32"
    and ch: "ch < 3" and x: "zeroish (signal_buffer s ! ch ! i)"
  shows "zero_lines (fir_delay (fir_sample ch i s))"
    and "0 \<le> fir_index (fir_sample ch i s) \<and> fir_index (fir_sample ch i s) < 32"
    and "signal_buffer (fir_sample ch i s)
           = (signal_buffer s)[ch := (signal_buffer s ! ch)[i := \<lparr>mantissa = 0, point = 0\<rparr>]]"
    and "adc_buffer (fir_sample ch i s) = adc_buffer s"
    and "output_buffer (fir_sample ch i s) = output_buffer s"
    and "fft_real (fir_sample ch i s) = fft_real s"
    and "fft_imag (fir_sample ch i s) = fft_imag s"
proof -
  note f = fir_filter_zero [OF D k ch x]
  show "zero_lines (fir_delay (fir_sample ch i s))"
    using f(3) by (simp add: fir_sample_def Let_def)
  show "0 \<le> fir_index (fir_sample ch i s) \<and> fir_index (fir_sample ch i s) < 32"
    using k by (simp add: fir_sample_index_mod FIR_TAPS_def)
  show "signal_buffer (fir_sample ch i s)
           = (signal_buffer s)[ch := (signal_buffer s ! ch)[i := \<lparr>mantissa = 0, point = 0\<rparr>]]"
    by (simp add: fir_sample_def Let_def f(1) f(2))
  show "adc_buffer (fir_sample ch i s) = adc_buffer s"
    "output_buffer (fir_sample ch i s) = output_buffer s"
    "fft_real (fir_sample ch i s) = fft_real s"
    "fft_imag (fir_sample ch i s) = fft_imag s"
    by (simp_all add: fir_sample_def Let_def f(2))
qed

lemma fill_step:
  "n < length xs \<Longrightarrow> (replicate n a @ drop n xs)[n := a] = replicate (Suc n) a @ drop (Suc n) xs"
  by (simp add: list_update_append replicate_append_same flip: Cons_nth_drop_Suc)

lemma row_update_twice:
  "ch < length SB \<Longrightarrow> (SB[ch := R])[ch := (SB[ch := R] ! ch)[n := a]] = SB[ch := R[n := a]]"
  by simp

lemma convert_sample_mid:
  assumes "adc_buffer s ! ch ! i = 2048"
  shows "convert_sample ch i s
           = s\<lparr>signal_buffer :=
                (signal_buffer s)[ch := (signal_buffer s ! ch)[i := \<lparr>mantissa = 0, point = - 4\<rparr>]]\<rparr>"
  by (simp add: convert_sample_def assms dpa_from_int_def)

lemma convert_inner:
  assumes adc: "adc_buffer s = replicate 3 (replicate 256 2048)"
    and ch: "ch < 3" "ch < length (signal_buffer s)"
    and len: "length (signal_buffer s ! ch) = 256"
  shows "n \<le> 256 \<Longrightarrow>
         fold (convert_sample ch) [0..<n] s
           = s\<lparr>signal_buffer :=
                (signal_buffer s)[ch := replicate n \<lparr>mantissa = 0, point = - 4\<rparr>
                                         @ drop n (signal_buffer s ! ch)]\<rparr>"
proof (induction n)
  case 0
  show ?case by simp
next
  case (Suc n)
  let ?t = "fold (convert_sample ch) [0..<n] s"
  have t: "?t = s\<lparr>signal_buffer :=
                (signal_buffer s)[ch := replicate n \<lparr>mantissa = 0, point = - 4\<rparr>
                                         @ drop n (signal_buffer s ! ch)]\<rparr>"
    using Suc by simp
  have a: "adc_buffer ?t ! ch ! n = 2048"
    using Suc.prems ch by (simp add: t adc)
  have "convert_sample ch n ?t
          = s\<lparr>signal_buffer :=
                (signal_buffer s)[ch := (replicate n \<lparr>mantissa = 0, point = - 4\<rparr>
                                         @ drop n (signal_buffer s ! ch))[n := \<lparr>mantissa = 0, point = - 4\<rparr>]]\<rparr>"
    unfolding convert_sample_mid [OF a] using ch by (simp add: t)
  also have "\<dots> = s\<lparr>signal_buffer :=
                (signal_buffer s)[ch := replicate (Suc n) \<lparr>mantissa = 0, point = - 4\<rparr>
                                         @ drop (Suc n) (signal_buffer s ! ch)]\<rparr>"
    using Suc.prems len by (simp only: fill_step)
  finally show ?case by simp
qed

lemma convert_outer:
  assumes adc: "adc_buffer s = replicate 3 (replicate 256 2048)"
    and len: "length (signal_buffer s) = 3" "\<forall>c<3. length (signal_buffer s ! c) = 256"
  shows "m \<le> 3 \<Longrightarrow>
         fold (\<lambda>ch. fold (convert_sample ch) [0..<BUFFER_SIZE]) [0..<m] s
           = s\<lparr>signal_buffer :=
                replicate m (replicate 256 \<lparr>mantissa = 0, point = - 4\<rparr>) @ drop m (signal_buffer s)\<rparr>"
proof (induction m)
  case 0
  show ?case by simp
next
  case (Suc m)
  let ?t = "fold (\<lambda>ch. fold (convert_sample ch) [0..<BUFFER_SIZE]) [0..<m] s"
  let ?R = "replicate 256 \<lparr>mantissa = 0, point = - 4\<rparr>"
  have t: "?t = s\<lparr>signal_buffer := replicate m ?R @ drop m (signal_buffer s)\<rparr>"
    using Suc by simp
  have row: "signal_buffer ?t ! m = signal_buffer s ! m"
    using Suc.prems len by (simp add: t nth_append)
  have l: "length (signal_buffer ?t ! m) = 256"
    using Suc.prems len by (simp add: row)
  have "fold (convert_sample m) [0..<256] ?t
          = ?t\<lparr>signal_buffer := (signal_buffer ?t)[m := ?R @ drop 256 (signal_buffer ?t ! m)]\<rparr>"
    by (rule convert_inner) (use Suc.prems len l in \<open>simp_all add: t adc\<close>)
  also have "\<dots> = s\<lparr>signal_buffer := (replicate m ?R @ drop m (signal_buffer s))[m := ?R]\<rparr>"
    using l by (simp add: t)
  also have "\<dots> = s\<lparr>signal_buffer := replicate (Suc m) ?R @ drop (Suc m) (signal_buffer s)\<rparr>"
    using Suc.prems len by (simp only: fill_step)
  finally show ?case by (simp add: BUFFER_SIZE_def)
qed

lemma convert_stage_mid:
  assumes "adc_buffer s = replicate 3 (replicate 256 2048)"
    and "length (signal_buffer s) = 3" "\<forall>c<3. length (signal_buffer s ! c) = 256"
  shows "convert_stage s
           = s\<lparr>signal_buffer := replicate 3 (replicate 256 \<lparr>mantissa = 0, point = - 4\<rparr>)\<rparr>"
  using convert_outer [OF assms, of 3] assms(2)
  by (simp add: convert_stage_def ADC_CHANNELS_def)

lemma fir_inner_zero:
  assumes ch: "ch < 3" "ch < length SB" and len: "length (SB ! ch) = 256"
    and z: "\<forall>j<256. zeroish (SB ! ch ! j)"
  shows "n \<le> 256 \<Longrightarrow> zero_lines (fir_delay s) \<Longrightarrow> 0 \<le> fir_index s \<Longrightarrow> fir_index s < 32 \<Longrightarrow>
         signal_buffer s = SB \<Longrightarrow>
         zero_lines (fir_delay (fold (fir_sample ch) [0..<n] s))
         \<and> signal_buffer (fold (fir_sample ch) [0..<n] s)
             = SB[ch := replicate n \<lparr>mantissa = 0, point = 0\<rparr> @ drop n (SB ! ch)]
         \<and> adc_buffer (fold (fir_sample ch) [0..<n] s) = adc_buffer s
         \<and> output_buffer (fold (fir_sample ch) [0..<n] s) = output_buffer s
         \<and> fft_real (fold (fir_sample ch) [0..<n] s) = fft_real s
         \<and> fft_imag (fold (fir_sample ch) [0..<n] s) = fft_imag s"
proof (induction n)
  case 0
  then show ?case using ch by simp
next
  case (Suc n)
  let ?t = "fold (fir_sample ch) [0..<n] s"
  let ?R = "replicate n \<lparr>mantissa = 0, point = 0\<rparr> @ drop n (SB ! ch)"
  have ih: "zero_lines (fir_delay ?t)" "signal_buffer ?t = SB[ch := ?R]"
    "adc_buffer ?t = adc_buffer s" "output_buffer ?t = output_buffer s"
    "fft_real ?t = fft_real s" "fft_imag ?t = fft_imag s"
    using Suc by simp_all
  have idx: "0 \<le> fir_index ?t" "fir_index ?t < 32"
    using fir_inner_logged [of s ch n "[]"] Suc.prems by (simp_all add: FIR_TAPS_def)
  have n: "n < 256" using Suc.prems by simp
  have "signal_buffer ?t ! ch ! n = SB ! ch ! n"
    using ch n len by (simp add: ih(2) nth_append)
  then have x: "zeroish (signal_buffer ?t ! ch ! n)"
    using z n by simp
  note f = fir_sample_zero [OF ih(1) idx ch(1) x]
  have "signal_buffer (fir_sample ch n ?t) = SB[ch := ?R[n := \<lparr>mantissa = 0, point = 0\<rparr>]]"
    unfolding f(3) ih(2) using ch(2) by (rule row_update_twice)
  also have "\<dots> = SB[ch := replicate (Suc n) \<lparr>mantissa = 0, point = 0\<rparr> @ drop (Suc n) (SB ! ch)]"
    using n len by (simp only: fill_step)
  finally show ?case
    using f ih by simp
qed

lemma fir_outer_zero:
  assumes len: "length SB = 3" and rows: "\<forall>c<3. length (SB ! c) = 256 \<and> (\<forall>j<256. zeroish (SB ! c ! j))"
    and D: "zero_lines (fir_delay s)" and k: "0 \<le> fir_index s" "fir_index s < 32"
    and sb: "signal_buffer s = SB"
  shows "m \<le> 3 \<Longrightarrow>
         zero_lines (fir_delay (fold (\<lambda>ch. fold (fir_sample ch) [0..<BUFFER_SIZE]) [0..<m] s))
         \<and> signal_buffer (fold (\<lambda>ch. fold (fir_sample ch) [0..<BUFFER_SIZE]) [0..<m] s)
             = replicate m (replicate 256 \<lparr>mantissa = 0, point = 0\<rparr>) @ drop m SB
         \<and> adc_buffer (fold (\<lambda>ch. fold (fir_sample ch) [0..<BUFFER_SIZE]) [0..<m] s) = adc_buffer s
         \<and> output_buffer (fold (\<lambda>ch. fold (fir_sample ch) [0..<BUFFER_SIZE]) [0..<m] s) = output_buffer s
         \<and> fft_real (fold (\<lambda>ch. fold (fir_sample ch) [0..<BUFFER_SIZE]) [0..<m] s) = fft_real s
         \<and> fft_imag (fold (\<lambda>ch. fold (fir_sample ch) [0..<BUFFER_SIZE]) [0..<m] s) = fft_imag s"
proof (induction m)
  case 0
  show ?case using D sb by simp
next
  case (Suc m)
  let ?t = "fold (\<lambda>ch. fold (fir_sample ch) [0..<BUFFER_SIZE]) [0..<m] s"
  let ?Z = "replicate 256 \<lparr>mantissa = 0, point = 0\<rparr>"
  let ?T = "replicate m ?Z @ drop m SB"
  have ih: "zero_lines (fir_delay ?t)" "signal_buffer ?t = ?T"
    "adc_buffer ?t = adc_buffer s" "output_buffer ?t = output_buffer s"
    "fft_real ?t = fft_real s" "fft_imag ?t = fft_imag s"
    using Suc by simp_all
  have idx: "0 \<le> fir_index ?t" "fir_index ?t < 32"
    using fir_outer_logged [of s m "[]"] k by (simp_all add: FIR_TAPS_def)
  have m: "m < 3" using Suc.prems by simp
  have row: "?T ! m = SB ! m"
    using m len by (simp add: nth_append)
  have c: "m < length ?T" using m len by simp
  have l: "length (?T ! m) = 256" "\<forall>j<256. zeroish (?T ! m ! j)"
    using rows m by (simp_all add: row)
  note f = fir_inner_zero [OF m c l, of 256 ?t, OF _ ih(1) idx ih(2), simplified]
  have "signal_buffer (fold (fir_sample m) [0..<256] ?t) = ?T[m := ?Z]"
    using f l(1) by (simp add: row)
  also have "\<dots> = replicate (Suc m) ?Z @ drop (Suc m) SB"
    using m len by (simp only: fill_step)
  finally show ?case
    using f ih by (simp add: BUFFER_SIZE_def)
qed

lemma fir_stage_zero:
  assumes "signal_buffer s = replicate 3 (replicate 256 \<lparr>mantissa = 0, point = - 4\<rparr>)"
    and "zero_lines (fir_delay s)" and "0 \<le> fir_index s" "fir_index s < 32"
  shows "signal_buffer (fir_stage s) = replicate 3 (replicate 256 \<lparr>mantissa = 0, point = 0\<rparr>)"
    and "output_buffer (fir_stage s) = output_buffer s"
    and "fft_real (fir_stage s) = fft_real s"
    and "fft_imag (fir_stage s) = fft_imag s"
    and "adc_buffer (fir_stage s) = adc_buffer s"
proof -
  let ?SB = "replicate 3 (replicate 256 \<lparr>mantissa = 0, point = - 4\<rparr>)"
  have len: "length ?SB = 3" by simp
  have rows: "\<forall>c<3. length (?SB ! c) = 256 \<and> (\<forall>j<256. zeroish (?SB ! c ! j))"
    by (simp add: zeroish_def)
  note f = fir_outer_zero [OF len rows assms(2,3,4,1), of 3, simplified]
  show "signal_buffer (fir_stage s) = replicate 3 (replicate 256 \<lparr>mantissa = 0, point = 0\<rparr>)"
    "output_buffer (fir_stage s) = output_buffer s"
    "fft_real (fir_stage s) = fft_real s"
    "fft_imag (fir_stage s) = fft_imag s"
    "adc_buffer (fir_stage s) = adc_buffer s"
    using f by (simp_all add: fir_stage_def ADC_CHANNELS_def)
qed

lemma foldl_add_zero:
  "(\<forall>x\<in>set xs. x = \<lparr>mantissa = 0, point = 0\<rparr>) \<Longrightarrow>
   foldl dpa_add \<lparr>mantissa = 0, point = 0\<rparr> xs = \<lparr>mantissa = 0, point = 0\<rparr>"
  by (induction xs) (simp_all add: dpa_add_zero_zero)

lemma delays_bound: "ch < 3 \<Longrightarrow> 0 \<le> delays ! ch"
proof -
  assume "ch < 3"
  then consider "ch = 0" | "ch = 1" | "ch = 2" by linarith
  then show ?thesis by cases (simp_all add: delays_def)
qed

lemma beamformer_spec_zero:
  assumes i: "i < 256"
    and inp: "inp = replicate 3 (replicate 256 \<lparr>mantissa = 0, point = 0\<rparr>)"
  shows "beamformer_spec 3 4 inp i = \<lparr>mantissa = 0, point = 0\<rparr>"
proof -
  have "inp ! ch ! nat (int i - delays ! ch) = \<lparr>mantissa = 0, point = 0\<rparr>" if "ch < 3" for ch
  proof -
    have "nat (int i - delays ! ch) < 256"
      using delays_bound [OF that] i by simp
    then show ?thesis using that by (simp add: inp)
  qed
  then have "\<forall>x\<in>set (map (\<lambda>ch. inp ! ch ! nat (int i - delays ! ch))
                        (filter (\<lambda>ch. int i - delays ! ch \<ge> 0) [0..<3])).
               x = \<lparr>mantissa = 0, point = 0\<rparr>"
    by auto
  then have "foldl dpa_add \<lparr>mantissa = 0, point = 0\<rparr>
               (map (\<lambda>ch. inp ! ch ! nat (int i - delays ! ch))
                    (filter (\<lambda>ch. int i - delays ! ch \<ge> 0) [0..<3])) = \<lparr>mantissa = 0, point = 0\<rparr>"
    by (rule foldl_add_zero)
  then show ?thesis
    by (simp add: beamformer_spec_def)
qed

lemma beamforming_zero:
  assumes "length out = 256"
  shows "delay_and_sum_beamforming (replicate 3 (replicate 256 \<lparr>mantissa = 0, point = 0\<rparr>)) out 256
           = replicate 256 \<lparr>mantissa = 0, point = 0\<rparr>"
proof (rule nth_equalityI)
  show "length (delay_and_sum_beamforming (replicate 3 (replicate 256 \<lparr>mantissa = 0, point = 0\<rparr>)) out 256)
          = length (replicate 256 \<lparr>mantissa = 0, point = 0\<rparr>)"
    using assms by (simp add: beam_length)
next
  fix i
  assume "i < length (delay_and_sum_beamforming (replicate 3 (replicate 256 \<lparr>mantissa = 0, point = 0\<rparr>)) out 256)"
  then have i: "i < 256" using assms by (simp add: beam_length)
  then show "delay_and_sum_beamforming (replicate 3 (replicate 256 \<lparr>mantissa = 0, point = 0\<rparr>)) out 256 ! i
          = replicate 256 \<lparr>mantissa = 0, point = 0\<rparr> ! i"
    using assms by (simp add: beam_nth beamformer_spec_zero)
qed

lemma sdiv_nonneg: "0 \<le> a \<Longrightarrow> 0 < b \<Longrightarrow> a sdiv b = a div (b :: int)"
  by (simp add: signed_divide_int_def sgn_if)

lemma angle_idx_range: "0 < N \<Longrightarrow> nat (((int k * int n * 16) sdiv int N) smod 16) < 16"
proof -
  assume N: "0 < N"
  have "0 \<le> int k * int n * 16" by simp
  then have "(int k * int n * 16) sdiv int N = (int k * int n * 16) div int N"
    using N by (intro sdiv_nonneg) simp_all
  moreover have "0 \<le> (int k * int n * 16) div int N"
    using N by (simp add: pos_imp_zdiv_nonneg_iff)
  ultimately show ?thesis
    by (simp add: smod_nonneg)
qed

lemma table_point: "a < 16 \<Longrightarrow> point (cos_table ! a) = - 4 \<and> point (sin_table ! a) = - 4"
proof -
  assume a: "a < 16"
  have "\<forall>c\<in>set cos_table. point c = - 4" "\<forall>c\<in>set sin_table. point c = - 4"
    by (simp_all add: cos_table_def sin_table_def)
  moreover have "length cos_table = 16" "length sin_table = 16"
    by (simp_all add: cos_table_def sin_table_def)
  ultimately show ?thesis using a by simp
qed

lemma dft_term_zero:
  assumes "input ! n = \<lparr>mantissa = 0, point = 0\<rparr>" "0 < N"
    and "re ! k = \<lparr>mantissa = 0, point = 0\<rparr>" "im ! k = \<lparr>mantissa = 0, point = 0\<rparr>"
  shows "dft_term input N k n (re, im) = (re, im)"
proof -
  let ?a = "nat (((int k * int n * 16) sdiv int N) smod 16)"
  have a: "?a < 16" by (rule angle_idx_range) fact
  have "dpa_multiply \<lparr>mantissa = 0, point = 0\<rparr> (cos_table ! ?a) = \<lparr>mantissa = 0, point = - 4\<rparr>"
    "dpa_multiply \<lparr>mantissa = 0, point = 0\<rparr> (sin_table ! ?a) = \<lparr>mantissa = 0, point = - 4\<rparr>"
    using table_point [OF a] by (simp_all add: dpa_multiply_zero_left)
  then have "dft_term input N k n (re, im)
          = (re[k := \<lparr>mantissa = 0, point = 0\<rparr>], im[k := \<lparr>mantissa = 0, point = 0\<rparr>])"
    using assms by (simp add: dft_term_def Let_def dpa_add_zero_m4)
  moreover have "re[k := \<lparr>mantissa = 0, point = 0\<rparr>] = re"
    using assms(3) by (metis list_update_id)
  moreover have "im[k := \<lparr>mantissa = 0, point = 0\<rparr>] = im"
    using assms(4) by (metis list_update_id)
  ultimately show ?thesis by simp
qed

lemma dft_bin_zero:
  assumes "\<forall>n<N. input ! n = \<lparr>mantissa = 0, point = 0\<rparr>" "0 < N"
    and "k < length re" "k < length im"
  shows "dft_bin input N k (re, im)
           = (re[k := \<lparr>mantissa = 0, point = 0\<rparr>], im[k := \<lparr>mantissa = 0, point = 0\<rparr>])"
proof -
  have "dft_term input N k n (re[k := \<lparr>mantissa = 0, point = 0\<rparr>], im[k := \<lparr>mantissa = 0, point = 0\<rparr>])
          = (re[k := \<lparr>mantissa = 0, point = 0\<rparr>], im[k := \<lparr>mantissa = 0, point = 0\<rparr>])"
    if "n \<in> set [0..<N]" for n
    by (rule dft_term_zero) (use that assms in simp_all)
  then show ?thesis
    unfolding dft_bin_def fst_conv snd_conv by (rule fold_fixed)
qed

lemma dft_loop_zero:
  assumes "\<forall>n<N. input ! n = \<lparr>mantissa = 0, point = 0\<rparr>" "0 < N"
  shows "m \<le> length re \<Longrightarrow> m \<le> length im \<Longrightarrow>
         fold (dft_bin input N) [0..<m] (re, im)
           = (replicate m \<lparr>mantissa = 0, point = 0\<rparr> @ drop m re,
              replicate m \<lparr>mantissa = 0, point = 0\<rparr> @ drop m im)"
proof (induction m)
  case 0
  show ?case by simp
next
  case (Suc m)
  let ?re = "replicate m \<lparr>mantissa = 0, point = 0\<rparr> @ drop m re"
  let ?im = "replicate m \<lparr>mantissa = 0, point = 0\<rparr> @ drop m im"
  have ih: "fold (dft_bin input N) [0..<m] (re, im) = (?re, ?im)"
    using Suc by simp
  have "dft_bin input N m (?re, ?im)
          = (?re[m := \<lparr>mantissa = 0, point = 0\<rparr>], ?im[m := \<lparr>mantissa = 0, point = 0\<rparr>])"
    by (rule dft_bin_zero) (use assms Suc.prems in simp_all)
  also have "\<dots> = (replicate (Suc m) \<lparr>mantissa = 0, point = 0\<rparr> @ drop (Suc m) re,
                    replicate (Suc m) \<lparr>mantissa = 0, point = 0\<rparr> @ drop (Suc m) im)"
    using Suc.prems by (simp only: fill_step Suc_le_lessD)
  finally show ?case
    by (simp add: ih)
qed

lemma dpa_to_int_zero: "dpa_to_int \<lparr>mantissa = 0, point = 0\<rparr> = Some 0"
  by (simp add: dpa_to_int_def)

lemma map_upt_const: "(\<forall>i<n. f i = c) \<Longrightarrow> map f [0..<n] = replicate n c"
  by (induction n) (simp_all add: replicate_append_same)

lemma dpa_value_zero: "dpa_value \<lparr>mantissa = 0, point = 0\<rparr> = 0"
  by (simp add: dpa_value_def)

text \<open>
  Claim C9. A block of 256 raw samples, all 2048, on each of the three channels, with the
  delay lines cleared and the cursor anywhere in its range; the other buffers have their
  declared sizes and any contents. After \<^verbatim>\<open>process_audio_block\<close> every filtered sample
  is \<^verbatim>\<open>{0,0}\<close>, every beamformed sample is \<^verbatim>\<open>{0,0}\<close>, each of the 32 real and 32
  imaginary bins the transform computes is \<^verbatim>\<open>{0,0}\<close> and converts to the integer 0, and
  the eight values that are printed are 0. The value \<^verbatim>\<open>{0,0}\<close> stands for zero.
\<close>

theorem zero_block_end_to_end:
  assumes adc: "adc_buffer s = replicate 3 (replicate 256 2048)"
    and delay: "fir_delay s = replicate 3 (replicate 32 \<lparr>mantissa = 0, point = 0\<rparr>)"
    and idx: "0 \<le> fir_index s" "fir_index s < 32"
    and sb: "length (signal_buffer s) = 3" "\<forall>c<3. length (signal_buffer s ! c) = 256"
    and ob: "length (output_buffer s) = 256"
    and fft: "length (fft_real s) = 64" "length (fft_imag s) = 64"
  shows "signal_buffer (fst (process_audio_block s)) = replicate 3 (replicate 256 \<lparr>mantissa = 0, point = 0\<rparr>)
    \<and> output_buffer (fst (process_audio_block s)) = replicate 256 \<lparr>mantissa = 0, point = 0\<rparr>
    \<and> take 32 (fft_real (fst (process_audio_block s))) = replicate 32 \<lparr>mantissa = 0, point = 0\<rparr>
    \<and> take 32 (fft_imag (fst (process_audio_block s))) = replicate 32 \<lparr>mantissa = 0, point = 0\<rparr>
    \<and> (\<forall>k<32. dpa_to_int (fft_real (fst (process_audio_block s)) ! k) = Some 0
              \<and> dpa_to_int (fft_imag (fst (process_audio_block s)) ! k) = Some 0)
    \<and> snd (process_audio_block s) = replicate 8 (Some 0)
    \<and> dpa_value \<lparr>mantissa = 0, point = 0\<rparr> = 0"
proof -
  let ?Z = "\<lparr>mantissa = 0, point = 0\<rparr> :: dpa_t"
  define s1 where "s1 = convert_stage s"
  define s2 where "s2 = fir_stage s1"
  define s3 where "s3 = s2\<lparr>output_buffer :=
      delay_and_sum_beamforming (signal_buffer s2) (output_buffer s2) BUFFER_SIZE\<rparr>"
  define out where "out = dpa_dft (output_buffer s3) (fft_real s3) (fft_imag s3) FFT_SIZE"
  define s4 where "s4 = s3\<lparr>fft_real := fst out, fft_imag := snd out\<rparr>"
  have pab: "process_audio_block s = (s4, map (\<lambda>i. dpa_to_int (fft_real s4 ! i)) [0..<8])"
    by (simp add: process_audio_block_def Let_def s1_def s2_def s3_def out_def s4_def
        BUFFER_SIZE_def FFT_SIZE_def)
  have s1: "s1 = s\<lparr>signal_buffer := replicate 3 (replicate 256 \<lparr>mantissa = 0, point = - 4\<rparr>)\<rparr>"
    unfolding s1_def by (rule convert_stage_mid) fact+
  have zl: "zero_lines (fir_delay s1)"
    by (simp add: s1 delay zero_lines_def zeroish_def)
  have i1: "0 \<le> fir_index s1" "fir_index s1 < 32"
    using idx by (simp_all add: s1)
  have sb1: "signal_buffer s1 = replicate 3 (replicate 256 \<lparr>mantissa = 0, point = - 4\<rparr>)"
    by (simp add: s1)
  note f = fir_stage_zero [OF sb1 zl i1, folded s2_def]
  have sb2: "signal_buffer s2 = replicate 3 (replicate 256 ?Z)" by (rule f(1))
  have ob2: "length (output_buffer s2) = 256" using ob by (simp add: f(2) s1)
  have ob3: "output_buffer s3 = replicate 256 ?Z"
    using beamforming_zero [OF ob2] by (simp add: s3_def sb2 BUFFER_SIZE_def)
  have sb3: "signal_buffer s3 = replicate 3 (replicate 256 ?Z)"
    by (simp add: s3_def sb2)
  have l3: "length (fft_real s3) = 64" "length (fft_imag s3) = 64"
    using fft by (simp_all add: s3_def f(3,4) s1)
  have inp: "\<forall>n<64. output_buffer s3 ! n = ?Z"
    by (simp add: ob3)
  have "fold (dft_bin (output_buffer s3) 64) [0..<32] (fft_real s3, fft_imag s3)
          = (replicate 32 ?Z @ drop 32 (fft_real s3), replicate 32 ?Z @ drop 32 (fft_imag s3))"
    by (rule dft_loop_zero) (use inp l3 in simp_all)
  then have out: "out = (replicate 32 ?Z @ drop 32 (fft_real s3), replicate 32 ?Z @ drop 32 (fft_imag s3))"
    by (simp add: out_def dpa_dft_def FFT_SIZE_def)
  have re4: "fft_real s4 = replicate 32 ?Z @ drop 32 (fft_real s3)"
    and im4: "fft_imag s4 = replicate 32 ?Z @ drop 32 (fft_imag s3)"
    by (simp_all add: s4_def out)
  have bin: "fft_real s4 ! k = ?Z \<and> fft_imag s4 ! k = ?Z" if "k < 32" for k
    using that by (simp add: re4 im4 nth_append)
  have sb4: "signal_buffer s4 = replicate 3 (replicate 256 ?Z)"
    and ob4: "output_buffer s4 = replicate 256 ?Z"
    by (simp_all add: s4_def sb3 ob3)
  have t: "take 32 (fft_real s4) = replicate 32 ?Z" "take 32 (fft_imag s4) = replicate 32 ?Z"
    by (simp_all add: re4 im4)
  have ints: "\<forall>k<32. dpa_to_int (fft_real s4 ! k) = Some 0 \<and> dpa_to_int (fft_imag s4 ! k) = Some 0"
    using bin by (simp add: dpa_to_int_zero)
  then have "\<forall>i<8. dpa_to_int (fft_real s4 ! i) = Some 0" by simp
  then have printed: "map (\<lambda>i. dpa_to_int (fft_real s4 ! i)) [0..<8] = replicate 8 (Some 0)"
    by (rule map_upt_const)
  show ?thesis
    unfolding pab fst_conv snd_conv
    using sb4 ob4 t ints printed dpa_value_zero by blast
qed

theorem zero_block_end_to_end_witness:
  "signal_buffer (fst (process_audio_block (initial_state\<lparr>adc_buffer := replicate 3 (replicate 256 2048)\<rparr>)))
     = replicate 3 (replicate 256 \<lparr>mantissa = 0, point = 0\<rparr>)
   \<and> output_buffer (fst (process_audio_block (initial_state\<lparr>adc_buffer := replicate 3 (replicate 256 2048)\<rparr>)))
     = replicate 256 \<lparr>mantissa = 0, point = 0\<rparr>
   \<and> take 32 (fft_real (fst (process_audio_block (initial_state\<lparr>adc_buffer := replicate 3 (replicate 256 2048)\<rparr>))))
     = replicate 32 \<lparr>mantissa = 0, point = 0\<rparr>
   \<and> take 32 (fft_imag (fst (process_audio_block (initial_state\<lparr>adc_buffer := replicate 3 (replicate 256 2048)\<rparr>))))
     = replicate 32 \<lparr>mantissa = 0, point = 0\<rparr>
   \<and> snd (process_audio_block (initial_state\<lparr>adc_buffer := replicate 3 (replicate 256 2048)\<rparr>))
     = replicate 8 (Some 0)"
proof -
  let ?s = "initial_state\<lparr>adc_buffer := replicate 3 (replicate 256 2048)\<rparr>"
  have "adc_buffer ?s = replicate 3 (replicate 256 2048)"
    "fir_delay ?s = replicate 3 (replicate 32 \<lparr>mantissa = 0, point = 0\<rparr>)"
    "0 \<le> fir_index ?s" "fir_index ?s < 32"
    "length (signal_buffer ?s) = 3" "\<forall>c<3. length (signal_buffer ?s ! c) = 256"
    "length (output_buffer ?s) = 256"
    "length (fft_real ?s) = 64" "length (fft_imag ?s) = 64"
    by (simp_all add: initial_state_def)
  from zero_block_end_to_end [OF this] show ?thesis by blast
qed

end
